theory Spec2Isabelle
  imports Complex_Main
begin

section \<open>Settings of sample.py\<close>

text \<open>
  The settings block of the script (lines 20-29). Coordinates, areas and attribute values
  are Python floats; they are modelled as real numbers, so rounding is not part of the
  model. The counters are Python integers.
\<close>

type_synonym size_class = "real \<times> real"

definition sample_n :: int where
  "sample_n = 100"

definition termination_f :: int where
  "termination_f = 500"

definition sample_sizes :: "size_class list" where
  "sample_sizes = [(1 / 2, 2), (2, 10), (1 / 100, 1), (1, 2), (2, 5), (5, 10)]"

section \<open>Geometry (shapely)\<close>

text \<open>
  A polygon is the list of the vertices handed to \<^verbatim>\<open>Polygon([...])\<close>; shapely closes the
  ring, so the edges run from each vertex to the next and from the last back to the first.
\<close>

type_synonym point = "real \<times> real"
type_synonym polygon = "point list"
type_synonym bbox = "real \<times> real \<times> real \<times> real"

definition edges :: "polygon \<Rightarrow> (point \<times> point) list" where
  "edges vs = zip vs (rotate1 vs)"

definition cross :: "point \<times> point \<Rightarrow> real" where
  "cross e = (case e of (a, b) \<Rightarrow> fst a * snd b - fst b * snd a)"

definition seg_len :: "point \<times> point \<Rightarrow> real" where
  "seg_len e = (case e of (a, b) \<Rightarrow> sqrt ((fst b - fst a)\<^sup>2 + (snd b - snd a)\<^sup>2))"

definition signed_area2 :: "polygon \<Rightarrow> real" where
  "signed_area2 vs = sum_list (map cross (edges vs))"

text \<open>\<^verbatim>\<open>geometry.area\<close>: the absolute value of the shoelace sum.\<close>

definition area :: "polygon \<Rightarrow> real" where
  "area vs = \<bar>signed_area2 vs\<bar> / 2"

text \<open>
  \<^verbatim>\<open>geometry.centroid\<close>: the area centroid of the ring; a ring of zero area falls back to
  the length-weighted centroid of its segments, and a ring of zero length to its first point.
\<close>

definition centroid :: "polygon \<Rightarrow> point" where
  "centroid vs =
     (let a2 = signed_area2 vs;
          len = sum_list (map seg_len (edges vs))
      in if a2 \<noteq> 0 then
           (sum_list (map (\<lambda>e. (fst (fst e) + fst (snd e)) * cross e) (edges vs)) / (3 * a2),
            sum_list (map (\<lambda>e. (snd (fst e) + snd (snd e)) * cross e) (edges vs)) / (3 * a2))
         else if 0 < len then
           (sum_list (map (\<lambda>e. seg_len e * (fst (fst e) + fst (snd e)) / 2) (edges vs)) / len,
            sum_list (map (\<lambda>e. seg_len e * (snd (fst e) + snd (snd e)) / 2) (edges vs)) / len)
         else (case vs of [] \<Rightarrow> (0, 0) | v # _ \<Rightarrow> v))"

text \<open>
  \<^verbatim>\<open>shapely.affinity.rotate(geom, angle, origin)\<close> with the angle in degrees,
  counter-clockwise: the affine map \<open>x' = cosp x - sinp y + xoff\<close>,
  \<open>y' = sinp x + cosp y + yoff\<close>, where a cosine or sine below \<open>2.5e-16\<close> in absolute value
  is set to zero.
\<close>

definition rotate_geom :: "polygon \<Rightarrow> real \<Rightarrow> point \<Rightarrow> polygon" where
  "rotate_geom geom angle origin =
     (let a = angle * pi / 180;
          cosp = (if \<bar>cos a\<bar> < 25 / 10 ^ 17 then 0 else cos a);
          sinp = (if \<bar>sin a\<bar> < 25 / 10 ^ 17 then 0 else sin a);
          x0 = fst origin;
          y0 = snd origin;
          xoff = x0 - x0 * cosp + y0 * sinp;
          yoff = y0 - x0 * sinp - y0 * cosp
      in map (\<lambda>v. (cosp * fst v - sinp * snd v + xoff, sinp * fst v + cosp * snd v + yoff)) geom)"

text \<open>\<^verbatim>\<open>polygon.bounds\<close> is \<open>(minx, miny, maxx, maxy)\<close>; a point's bounds are the point twice.\<close>

definition poly_bounds :: "polygon \<Rightarrow> bbox" where
  "poly_bounds vs =
     (Min (set (map fst vs)), Min (set (map snd vs)), Max (set (map fst vs)), Max (set (map snd vs)))"

definition point_bounds :: "point \<Rightarrow> bbox" where
  "point_bounds p = (fst p, snd p, fst p, snd p)"

definition bbox_intersects :: "bbox \<Rightarrow> bbox \<Rightarrow> bool" where
  "bbox_intersects a b =
     (case a of (ax0, ay0, ax1, ay1) \<Rightarrow> case b of (bx0, by0, bx1, by1) \<Rightarrow>
        ax0 \<le> bx1 \<and> bx0 \<le> ax1 \<and> ay0 \<le> by1 \<and> by0 \<le> ay1)"

text \<open>
  \<^verbatim>\<open>point.within(polygon)\<close>: the point lies in the interior of the polygon. It is not on
  the ring, and a ray from the point towards growing x crosses the ring an odd number of
  times.
\<close>

definition on_segment :: "point \<Rightarrow> point \<times> point \<Rightarrow> bool" where
  "on_segment p e =
     (case e of (a, b) \<Rightarrow>
        (fst b - fst a) * (snd p - snd a) = (snd b - snd a) * (fst p - fst a) \<and>
        min (fst a) (fst b) \<le> fst p \<and> fst p \<le> max (fst a) (fst b) \<and>
        min (snd a) (snd b) \<le> snd p \<and> snd p \<le> max (snd a) (snd b))"

definition crosses :: "point \<Rightarrow> point \<times> point \<Rightarrow> bool" where
  "crosses p e =
     (case e of (a, b) \<Rightarrow>
        (snd p < snd a) \<noteq> (snd p < snd b) \<and>
        fst p < fst a + (snd p - snd a) * (fst b - fst a) / (snd b - snd a))"

definition point_within :: "point \<Rightarrow> polygon \<Rightarrow> bool" where
  "point_within p vs =
     (\<not> list_ex (on_segment p) (edges vs) \<and> odd (length (filter (crosses p) (edges vs))))"

section \<open>Numbers (Python, numpy, statistics)\<close>

datatype error = StatisticsError | TypeError | IndexError | OverflowError

text \<open>
  \<^verbatim>\<open>numpy.random.uniform(low, high)\<close> is \<open>low + (high - low) * u\<close> for the next variate
  \<open>u\<close> of the generator, \<open>0 \<le> u < 1\<close>; it accepts \<open>high < low\<close>.
\<close>

definition uniform :: "real \<Rightarrow> real \<Rightarrow> real \<Rightarrow> real" where
  "uniform low high u = low + (high - low) * u"

text \<open>\<^verbatim>\<open>int(x)\<close> on a float drops the fractional part: it rounds towards zero.\<close>

definition py_int :: "real \<Rightarrow> int" where
  "py_int x = (if 0 \<le> x then \<lfloor>x\<rfloor> else \<lceil>x\<rceil>)"

text \<open>
  \<^verbatim>\<open>x ** 0.5\<close>: the square root of a float. On a negative float Python yields a complex
  number; the script goes on to draw the origin, and building the polygon from complex
  coordinates raises a TypeError.
\<close>

definition pow_half :: "real \<Rightarrow> error + real" where
  "pow_half x = (if x < 0 then Inl TypeError else Inr (sqrt x))"

text \<open>\<^verbatim>\<open>statistics.mean\<close> and \<^verbatim>\<open>statistics.pstdev\<close> raise StatisticsError on no data.\<close>

definition mean :: "real list \<Rightarrow> error + real" where
  "mean vals = (if vals = [] then Inl StatisticsError else Inr (sum_list vals / real (length vals)))"

definition pstdev :: "real list \<Rightarrow> error + real" where
  "pstdev vals =
     (if vals = [] then Inl StatisticsError
      else let mu = sum_list vals / real (length vals)
           in Inr (sqrt (sum_list (map (\<lambda>x. (x - mu)\<^sup>2) vals) / real (length vals))))"

section \<open>The data and the libraries the script reads\<close>

record row =
  geometry :: point
  GRID_CODE :: real

text \<open>
  What the script has after "preparing data": the rows of the point dataset, the bounds
  it samples in (\<open>main\<close> sets them to the \<^verbatim>\<open>total_bounds\<close> of the rows, as line 40 does),
  and the polygons of the AOI. Three things come from libraries and are
  parameters: \<^verbatim>\<open>polygon.within(polygon)\<close> of shapely, the query \<^verbatim>\<open>idx.intersection\<close> of the
  rtree (given the entries inserted and a query box, the identifiers it returns), and the
  sequence of variates of numpy's generator.
\<close>

record env =
  data :: "row list"
  bounds :: bbox
  aoi :: "polygon list"
  poly_within :: "polygon \<Rightarrow> polygon \<Rightarrow> bool"
  intersection :: "(nat \<times> bbox) list \<Rightarrow> bbox \<Rightarrow> nat list"
  random_sample :: "nat \<Rightarrow> real"

text \<open>
  Line 40: \<^verbatim>\<open>data.total_bounds\<close> is \<open>(minx, miny, maxx, maxy)\<close> over the points of the rows.
  For an empty dataset it is four NaN, which the reals do not have: \<open>None\<close> stands for them.
\<close>

definition total_bounds :: "row list \<Rightarrow> bbox option" where
  "total_bounds rows =
     (if rows = [] then None
      else Some (Min (set (map (\<lambda>d. fst (geometry d)) rows)), Min (set (map (\<lambda>d. snd (geometry d)) rows)),
                 Max (set (map (\<lambda>d. fst (geometry d)) rows)), Max (set (map (\<lambda>d. snd (geometry d)) rows))))"

text \<open>Lines 43-45: every row is inserted under its row number with the bounds of its point.\<close>

definition build_idx :: "row list \<Rightarrow> (nat \<times> bbox) list" where
  "build_idx rows = zip [0..<length rows] (map (\<lambda>d. point_bounds (geometry d)) rows)"

text \<open>\<^verbatim>\<open>data.iloc[list(ids)]\<close>: the rows at these positions; a position out of range raises.\<close>

definition iloc :: "row list \<Rightarrow> nat list \<Rightarrow> error + row list" where
  "iloc rows ids = (if list_all (\<lambda>i. i < length rows) ids then Inr (map (nth rows) ids) else Inl IndexError)"

section \<open>The candidate (lines 76-84)\<close>

definition candidate_size :: "size_class \<Rightarrow> real \<Rightarrow> error + real" where
  "candidate_size sample_size u = pow_half (uniform (fst sample_size) (snd sample_size) u * 10000)"

definition candidate_point :: "bbox \<Rightarrow> real \<Rightarrow> real \<Rightarrow> real \<Rightarrow> int \<times> int" where
  "candidate_point b side u v =
     (case b of (b0, b1, b2, b3) \<Rightarrow>
        (py_int (uniform b0 (b2 - side) u), py_int (uniform b1 (b3 - side) v)))"

definition square :: "int \<times> int \<Rightarrow> real \<Rightarrow> polygon" where
  "square p side =
     [(real_of_int (fst p), real_of_int (snd p)),
      (real_of_int (fst p), real_of_int (snd p) + side),
      (real_of_int (fst p) + side, real_of_int (snd p) + side),
      (real_of_int (fst p) + side, real_of_int (snd p))]"

definition candidate_polygon :: "int \<times> int \<Rightarrow> real \<Rightarrow> polygon" where
  "candidate_polygon p side = rotate_geom (square p side) 45 (centroid (square p side))"

section \<open>The acceptance loop (lines 59-104)\<close>

record loop_state =
  out_mean :: "real list"
  out_stdev :: "real list"
  out_geom :: "polygon list"
  count :: int
  pos :: nat

text \<open>
  \<open>pos\<close> is the number of variates the generator has handed out so far. One pass of the
  \<^verbatim>\<open>while\<close> loop, from its test, ends in one of three ways: back at the test (\<open>Next\<close>,
  after \<^verbatim>\<open>continue\<close> or at the end of the body), out of the loop (\<open>Break\<close>, when the test
  fails or at \<^verbatim>\<open>break\<close>), or with an exception (\<open>Raise\<close>), each with the state of the
  variables at that moment.
\<close>

datatype pass = Next loop_state | Break loop_state | Raise error loop_state

text \<open>Lines 87-90: the flag is set for every polygon of the AOI that contains the candidate.\<close>

definition intersects :: "env \<Rightarrow> polygon \<Rightarrow> bool" where
  "intersects w polygon = fold (\<lambda>a flag. if poly_within w polygon a then True else flag) (aoi w) False"

text \<open>Lines 97-101.\<close>

definition precise_matches :: "env \<Rightarrow> polygon \<Rightarrow> error + row list" where
  "precise_matches w polygon =
     (case iloc (data w) (intersection w (build_idx (data w)) (poly_bounds polygon)) of
        Inl e \<Rightarrow> Inl e
      | Inr possible_matches \<Rightarrow> Inr (filter (\<lambda>d. point_within (geometry d) polygon) possible_matches))"

definition sample_pass :: "int \<Rightarrow> int \<Rightarrow> env \<Rightarrow> size_class \<Rightarrow> loop_state \<Rightarrow> pass" where
  "sample_pass n f w sample_size st0 =
     (if int (length (out_geom st0)) < n then
        (let st1 = st0\<lparr>count := count st0 + 1\<rparr> in
         if count st1 = n * f then Break st1
         else
           (case candidate_size sample_size (random_sample w (pos st1)) of
              Inl e \<Rightarrow> Raise e (st1\<lparr>pos := pos st1 + 3\<rparr>)
            | Inr side \<Rightarrow>
               (let point = candidate_point (bounds w) side
                              (random_sample w (pos st1 + 1)) (random_sample w (pos st1 + 2));
                    polygon = candidate_polygon point side;
                    st2 = st1\<lparr>pos := pos st1 + 3\<rparr>
                in if \<not> intersects w polygon then Next st2
                   else
                     (case precise_matches w polygon of
                        Inl e \<Rightarrow> Raise e st2
                      | Inr rows \<Rightarrow>
                         (let vals = map GRID_CODE rows in
                          case mean vals of
                            Inl e \<Rightarrow> Raise e st2
                          | Inr m \<Rightarrow>
                             (let st3 = st2\<lparr>out_mean := out_mean st2 @ [m]\<rparr> in
                              case pstdev vals of
                                Inl e \<Rightarrow> Raise e st3
                              | Inr s \<Rightarrow>
                                  Next (st3\<lparr>out_stdev := out_stdev st3 @ [s],
                                             out_geom := out_geom st3 @ [polygon]\<rparr>)))))))
      else Break st0)"

text \<open>
  The loop repeats the pass until it leaves. Nothing in its text bounds the number of
  passes, so the loop is a partial function: \<open>None\<close> is a loop that never ends.
\<close>

partial_function (option) sample_loop ::
  "int \<Rightarrow> int \<Rightarrow> env \<Rightarrow> size_class \<Rightarrow> loop_state \<Rightarrow> ((error \<times> loop_state) + loop_state) option" where
  "sample_loop n f w sample_size st =
     (case sample_pass n f w sample_size st of
        Next st' \<Rightarrow> sample_loop n f w sample_size st'
      | Break st' \<Rightarrow> Some (Inr st')
      | Raise e st' \<Rightarrow> Some (Inl (e, st')))"

text \<open>Lines 60-65: the lists are emptied and the counter reset for every size class.\<close>

definition init_state :: "nat \<Rightarrow> loop_state" where
  "init_state p = \<lparr>out_mean = [], out_stdev = [], out_geom = [], count = 0, pos = p\<rparr>"

text \<open>The state after \<open>k\<close> passes, as long as every pass came back to the test.\<close>

fun passes :: "int \<Rightarrow> int \<Rightarrow> env \<Rightarrow> size_class \<Rightarrow> nat \<Rightarrow> loop_state \<Rightarrow> loop_state option" where
  "passes n f w sample_size 0 st = Some st"
| "passes n f w sample_size (Suc k) st =
     (case sample_pass n f w sample_size st of
        Next st' \<Rightarrow> passes n f w sample_size k st'
      | Break st' \<Rightarrow> None
      | Raise e st' \<Rightarrow> None)"

section \<open>The export (lines 106-111) and the whole run\<close>

record sample =
  s_mean :: real
  s_stdev :: real
  s_geometry :: polygon
  s_area :: real

definition result :: "loop_state \<Rightarrow> sample list" where
  "result st =
     map (\<lambda>(m, s, g). \<lparr>s_mean = m, s_stdev = s, s_geometry = g, s_area = area g * (1 / 10000)\<rparr>)
       (zip (out_mean st) (zip (out_stdev st) (out_geom st)))"

text \<open>
  The files written so far, in order, each under the size class that names it
  (\<^verbatim>\<open>./out/{min}-{max}-samples.shp\<close>).
\<close>

type_synonym files = "(size_class \<times> sample list) list"

definition export :: "size_class \<Rightarrow> loop_state \<Rightarrow> files \<Rightarrow> files" where
  "export sample_size st out = (if length (out_geom st) > 0 then out @ [(sample_size, result st)] else out)"

text \<open>
  The body of the \<^verbatim>\<open>for\<close> loop over the size classes, and the loop itself. An exception
  ends the run; the files written before it stay.
\<close>

definition run_class ::
  "int \<Rightarrow> int \<Rightarrow> env \<Rightarrow> size_class \<Rightarrow> nat \<times> files \<Rightarrow> ((error \<times> files) + (nat \<times> files)) option" where
  "run_class n f w sample_size s =
     (case sample_loop n f w sample_size (init_state (fst s)) of
        None \<Rightarrow> None
      | Some (Inl (e, st)) \<Rightarrow> Some (Inl (e, snd s))
      | Some (Inr st) \<Rightarrow> Some (Inr (pos st, export sample_size st (snd s))))"

fun run_classes ::
  "int \<Rightarrow> int \<Rightarrow> env \<Rightarrow> size_class list \<Rightarrow> nat \<times> files \<Rightarrow> ((error \<times> files) + (nat \<times> files)) option" where
  "run_classes n f w [] s = Some (Inr s)"
| "run_classes n f w (sample_size # rest) s =
     (case run_class n f w sample_size s of
        None \<Rightarrow> None
      | Some (Inl e) \<Rightarrow> Some (Inl e)
      | Some (Inr s') \<Rightarrow> run_classes n f w rest s')"

text \<open>
  The script: the bounds are those of the dataset, the generator starts at its first
  variate and no file is written yet. With the NaN bounds of an empty dataset the range of
  the first draw of an origin (line 80) is NaN, and \<^verbatim>\<open>uniform\<close> raises OverflowError: in the
  first pass of the first size class, before any file is written.
\<close>

definition main :: "env \<Rightarrow> ((error \<times> files) + (nat \<times> files)) option" where
  "main w =
     (case total_bounds (data w) of
        None \<Rightarrow> Some (Inl (OverflowError, []))
      | Some b \<Rightarrow> run_classes sample_n termination_f (w\<lparr>bounds := b\<rparr>) sample_sizes (0, []))"

section \<open>Notions used to state the properties\<close>

text \<open>The candidate that a pass builds when the generator stands at position \<open>p\<close>.\<close>

definition candidate :: "env \<Rightarrow> size_class \<Rightarrow> nat \<Rightarrow> error + polygon" where
  "candidate w sample_size p =
     (case candidate_size sample_size (random_sample w p) of
        Inl e \<Rightarrow> Inl e
      | Inr side \<Rightarrow>
          Inr (candidate_polygon
                 (candidate_point (bounds w) side (random_sample w (p + 1)) (random_sample w (p + 2)))
                 side))"

text \<open>How a pass leaves the loop, if it does.\<close>

definition leaves :: "pass \<Rightarrow> ((error \<times> loop_state) + loop_state) option" where
  "leaves r = (case r of Next st \<Rightarrow> None | Break st \<Rightarrow> Some (Inr st) | Raise e st \<Rightarrow> Some (Inl (e, st)))"

text \<open>The variables of the loop when it is left, normally or by an exception.\<close>

definition final_state :: "(error \<times> loop_state) + loop_state \<Rightarrow> loop_state" where
  "final_state r = (case r of Inl (e, st) \<Rightarrow> st | Inr st \<Rightarrow> st)"

text \<open>The three result lists are equally long and hold at most \<open>n\<close> elements.\<close>

definition lists_agree :: "int \<Rightarrow> loop_state \<Rightarrow> bool" where
  "lists_agree n st =
     (length (out_mean st) = length (out_geom st) \<and> length (out_stdev st) = length (out_geom st) \<and>
      int (length (out_geom st)) \<le> n)"

text \<open>
  The rotation of the plane by \<open>deg\<close> degrees, counter-clockwise, about the point \<open>c\<close>, and
  the square standing on a corner with centre \<open>c\<close> and half-diagonal \<open>d\<close>: its corners in the
  order bottom, left, top, right.
\<close>

definition rotate_about :: "point \<Rightarrow> real \<Rightarrow> point \<Rightarrow> point" where
  "rotate_about c deg v =
     (fst c + (fst v - fst c) * cos (deg * pi / 180) - (snd v - snd c) * sin (deg * pi / 180),
      snd c + (fst v - fst c) * sin (deg * pi / 180) + (snd v - snd c) * cos (deg * pi / 180))"

definition diamond :: "point \<Rightarrow> real \<Rightarrow> polygon" where
  "diamond c d = [(fst c, snd c - d), (fst c - d, snd c), (fst c, snd c + d), (fst c + d, snd c)]"

section \<open>An example run\<close>

text \<open>
  A small dataset, an AOI of one large square, and stand-ins for the three library
  parameters: an rtree that returns exactly the identifiers whose boxes meet the query box,
  in the order of insertion; a polygon counted as within another when each of its vertices
  is within it (exact for a convex outer polygon); and a generator whose variates are all
  \<open>0\<close>. The dataset spans \<open>(0, 0, 100, 100)\<close>.
\<close>

definition rtree_intersection :: "(nat \<times> bbox) list \<Rightarrow> bbox \<Rightarrow> nat list" where
  "rtree_intersection entries box = map fst (filter (\<lambda>e. bbox_intersects (snd e) box) entries)"

definition vertices_within :: "polygon \<Rightarrow> polygon \<Rightarrow> bool" where
  "vertices_within p a = list_all (\<lambda>v. point_within v a) p"

definition box :: "real \<Rightarrow> real \<Rightarrow> real \<Rightarrow> real \<Rightarrow> polygon" where
  "box x0 y0 x1 y1 = [(x0, y0), (x0, y1), (x1, y1), (x1, y0)]"

definition example_data :: "row list" where
  "example_data =
     [\<lparr>geometry = (0, 0), GRID_CODE = 3\<rparr>,
      \<lparr>geometry = (50, 50), GRID_CODE = 7\<rparr>,
      \<lparr>geometry = (100, 100), GRID_CODE = 9\<rparr>]"

definition example_env :: env where
  "example_env =
     \<lparr>data = example_data, bounds = (0, 0, 100, 100), aoi = [box (- 100) (- 100) 200 200],
      poly_within = vertices_within, intersection = rtree_intersection,
      random_sample = (\<lambda>i. 0)\<rparr>"

text \<open>The candidate every pass of the example builds, and the state after \<open>k\<close> acceptances.\<close>

definition example_polygon :: polygon where
  "example_polygon = diamond (50, 50) (50 * sqrt 2)"

definition example_state :: "nat \<Rightarrow> loop_state" where
  "example_state k =
     \<lparr>out_mean = replicate k 7, out_stdev = replicate k 0, out_geom = replicate k example_polygon,
      count = int k, pos = 3 * k\<rparr>"

text \<open>
  Three variations of the example: a dataset whose only point lies in the bounds of the
  candidate but outside the candidate; no AOI polygon at all; and a dataset left of and
  below the origin, spanning \<open>(-10, -10, 0, 0)\<close>, less than the side of a candidate, with
  variates that put the draw of the origin between two whole numbers.
\<close>

definition sparse_env :: env where
  "sparse_env = example_env\<lparr>data := [\<lparr>geometry = (0, 0), GRID_CODE = 3\<rparr>]\<rparr>"

definition no_aoi_env :: env where
  "no_aoi_env = example_env\<lparr>aoi := []\<rparr>"

definition negative_env :: env where
  "negative_env =
     example_env\<lparr>data := [\<lparr>geometry = (- 10, - 10), GRID_CODE = 1\<rparr>, \<lparr>geometry = (0, 0), GRID_CODE = 3\<rparr>],
                 bounds := (- 10, - 10, 0, 0), random_sample := (\<lambda>i. if i = 0 then 0 else 1 / 4)\<rparr>"

section \<open>One pass of the loop\<close>

lemma mean_Inr_iff: "(\<exists>m. mean vals = Inr m) \<longleftrightarrow> vals \<noteq> []"
  by (simp add: mean_def)

lemma sample_pass_Next:
  assumes "sample_pass n f w sc st = Next st'"
  shows "int (length (out_geom st)) < n \<and> count st + 1 \<noteq> n * f \<and>
         count st' = count st + 1 \<and> pos st' = pos st + 3 \<and>
         (\<exists>poly. candidate w sc (pos st) = Inr poly \<and>
            (if intersects w poly
             then \<exists>rows m s. precise_matches w poly = Inr rows \<and> mean (map GRID_CODE rows) = Inr m \<and>
                    pstdev (map GRID_CODE rows) = Inr s \<and>
                    st' = st\<lparr>out_mean := out_mean st @ [m], out_stdev := out_stdev st @ [s],
                              out_geom := out_geom st @ [poly], count := count st + 1, pos := pos st + 3\<rparr>
             else st' = st\<lparr>count := count st + 1, pos := pos st + 3\<rparr>))"
  using assms
  by (auto simp: sample_pass_def candidate_def Let_def split: if_splits sum.splits)

lemma sample_pass_Break:
  "sample_pass n f w sc st = Break st' \<longleftrightarrow>
     (\<not> int (length (out_geom st)) < n \<and> st' = st \<or>
      int (length (out_geom st)) < n \<and> count st + 1 = n * f \<and> st' = st\<lparr>count := count st + 1\<rparr>)"
  by (auto simp: sample_pass_def Let_def split: if_splits sum.splits)

lemma sample_pass_Raise:
  assumes "sample_pass n f w sc st = Raise e st'"
  shows "int (length (out_geom st)) < n \<and> count st + 1 \<noteq> n * f \<and>
         out_mean st' = out_mean st \<and> out_stdev st' = out_stdev st \<and> out_geom st' = out_geom st \<and>
         count st' = count st + 1 \<and>
         (candidate w sc (pos st) = Inl e \<or>
          (\<exists>poly. candidate w sc (pos st) = Inr poly \<and> intersects w poly \<and>
             (precise_matches w poly = Inl e \<or>
              precise_matches w poly = Inr [] \<and> e = StatisticsError)))"
  using assms
  by (auto simp: sample_pass_def candidate_def Let_def mean_def pstdev_def split: if_splits sum.splits)

section \<open>The loop as repeated passes\<close>

lemma loop_passes:
  "passes n f w sc k st = Some st' \<Longrightarrow> sample_loop n f w sc st = sample_loop n f w sc st'"
proof (induction k arbitrary: st)
  case 0
  then show ?case by simp
next
  case (Suc k)
  then show ?case
    by (subst sample_loop.simps) (auto split: pass.splits)
qed

lemma loop_leaves:
  "leaves (sample_pass n f w sc st) = Some r \<Longrightarrow> sample_loop n f w sc st = Some r"
  by (subst sample_loop.simps) (auto simp: leaves_def split: pass.splits)

lemma loop_Some_passes:
  "sample_loop n f w sc st = Some r \<Longrightarrow>
     \<exists>k st'. passes n f w sc k st = Some st' \<and> leaves (sample_pass n f w sc st') = Some r"
proof (induction n f w sc st r rule: sample_loop.raw_induct[rotated 1, consumes 1, case_names step])
  case (step loop n f w sc st r)
  show ?case
  proof (cases "sample_pass n f w sc st")
    case (Next st1)
    with step(2) have "loop n f w sc st1 = Some r" by simp
    from step(1)[of n f w sc st1 r] this
    obtain k st' where k: "passes n f w sc k st1 = Some st'" "leaves (sample_pass n f w sc st') = Some r"
      by auto
    from Next k(1) have "passes n f w sc (Suc k) st = Some st'" by simp
    with k(2) show ?thesis by blast
  next
    case (Break st1)
    with step(2) have "leaves (sample_pass n f w sc st) = Some r" by (simp add: leaves_def)
    moreover have "passes n f w sc 0 st = Some st" by simp
    ultimately show ?thesis by blast
  next
    case (Raise e st1)
    with step(2) have "leaves (sample_pass n f w sc st) = Some r" by (simp add: leaves_def)
    moreover have "passes n f w sc 0 st = Some st" by simp
    ultimately show ?thesis by blast
  qed
qed

lemma passes_Suc_end:
  "passes n f w sc (Suc k) st = Some st'' \<longleftrightarrow>
     (\<exists>st'. passes n f w sc k st = Some st' \<and> sample_pass n f w sc st' = Next st'')"
proof (induction k arbitrary: st)
  case 0
  show ?case by (auto split: pass.splits)
next
  case (Suc k)
  show ?case
  proof (cases "sample_pass n f w sc st")
    case (Next st1)
    have "passes n f w sc (Suc (Suc k)) st = passes n f w sc (Suc k) st1"
      using Next by simp
    also have "\<dots> = Some st'' \<longleftrightarrow> (\<exists>st'. passes n f w sc k st1 = Some st' \<and> sample_pass n f w sc st' = Next st'')"
      by (rule Suc.IH)
    also have "\<dots> \<longleftrightarrow> (\<exists>st'. passes n f w sc (Suc k) st = Some st' \<and> sample_pass n f w sc st' = Next st'')"
      using Next by simp
    finally show ?thesis .
  qed simp_all
qed

lemma passes_invariant:
  assumes "passes n f w sc k st = Some st'" and "I st"
    and "\<And>s s'. I s \<Longrightarrow> sample_pass n f w sc s = Next s' \<Longrightarrow> I s'"
  shows "I st'"
  using assms(1,2)
proof (induction k arbitrary: st)
  case 0
  then show ?case by simp
next
  case (Suc k)
  then show ?case using assms(3) by (auto split: pass.splits)
qed



lemma pass_lists_agree:
  "lists_agree n s \<Longrightarrow> sample_pass n f w sc s = Next s' \<Longrightarrow> lists_agree n s'"
  by (auto simp: lists_agree_def dest!: sample_pass_Next split: if_splits)

lemma passes_lists_agree:
  "passes n f w sc k st = Some st' \<Longrightarrow> lists_agree n st \<Longrightarrow> lists_agree n st'"
  by (erule passes_invariant) (auto intro: pass_lists_agree)

lemma leaves_lists_agree:
  "leaves (sample_pass n f w sc st) = Some r \<Longrightarrow> lists_agree n st \<Longrightarrow> lists_agree n (final_state r)"
  by (cases "sample_pass n f w sc st")
     (auto simp: leaves_def final_state_def lists_agree_def sample_pass_Break dest!: sample_pass_Raise)


lemma init_lists_agree: "0 \<le> n \<Longrightarrow> lists_agree n (init_state p)"
  by (simp add: lists_agree_def init_state_def)

lemma result_columns:
  assumes "lists_agree n st"
  shows "map s_mean (result st) = out_mean st \<and> map s_stdev (result st) = out_stdev st \<and>
         map s_geometry (result st) = out_geom st \<and>
         map s_area (result st) = map (\<lambda>g. area g * (1 / 10000)) (out_geom st)"
proof -
  have l: "length (out_mean st) = length (out_geom st)" "length (out_stdev st) = length (out_geom st)"
    using assms by (simp_all add: lists_agree_def)
  have 1: "map s_mean (result st) = map fst (zip (out_mean st) (zip (out_stdev st) (out_geom st)))"
    by (simp add: result_def case_prod_unfold comp_def)
  have 2: "map s_stdev (result st) = map fst (map snd (zip (out_mean st) (zip (out_stdev st) (out_geom st))))"
    by (simp add: result_def case_prod_unfold comp_def)
  have 3: "map s_geometry (result st) = map snd (map snd (zip (out_mean st) (zip (out_stdev st) (out_geom st))))"
    by (simp add: result_def case_prod_unfold comp_def)
  have 4: "map s_area (result st) =
             map (\<lambda>g. area g * (1 / 10000)) (map snd (map snd (zip (out_mean st) (zip (out_stdev st) (out_geom st)))))"
    by (simp add: result_def case_prod_unfold comp_def)
  show ?thesis
    unfolding 1 2 3 4 using l by simp
qed

section \<open>The candidate square\<close>

lemma edges4: "edges [a, b, c, d] = [(a, b), (b, c), (c, d), (d, a)]"
  by (simp add: edges_def)

lemma signed_area2_square: "signed_area2 (square p s) = - 2 * s\<^sup>2"
  by (simp add: signed_area2_def square_def edges4 cross_def power2_eq_square algebra_simps)

lemma area_square: "area (square p s) = s\<^sup>2"
  by (simp add: area_def signed_area2_square)

lemma centroid_square:
  "centroid (square p s) = (real_of_int (fst p) + s / 2, real_of_int (snd p) + s / 2)"
proof (cases "s = 0")
  case True
  then have "signed_area2 (square p s) = 0" by (simp add: signed_area2_square)
  moreover have "sum_list (map seg_len (edges (square p s))) = 0"
    using True by (simp add: square_def edges4 seg_len_def)
  ultimately show ?thesis
    using True by (simp add: centroid_def Let_def) (simp add: square_def)
next
  case False
  then have "signed_area2 (square p s) \<noteq> 0" by (simp add: signed_area2_square)
  then show ?thesis
    using False
    apply (simp add: centroid_def Let_def)
    apply (simp add: signed_area2_square)
    apply (simp add: square_def edges4 cross_def power2_eq_square)
    apply (simp add: field_simps)
    done
qed

lemma angle_45: "(45::real) * pi / 180 = pi / 4"
  by simp

lemma cos_sin_45_big:
  "\<not> \<bar>cos (pi / 4)\<bar> < (25::real) / 10 ^ 17" "\<not> \<bar>sin (pi / 4)\<bar> < (25::real) / 10 ^ 17"
proof -
  have "1 \<le> sqrt 2" by simp
  then have h: "(1::real) / 2 \<le> sqrt 2 / 2" by simp
  have s: "(25::real) / 10 ^ 17 < 1 / 2" by simp
  have "\<bar>sqrt 2 / 2\<bar> = sqrt 2 / 2" by simp
  with h s have "\<not> \<bar>sqrt 2 / 2\<bar> < (25::real) / 10 ^ 17" by linarith
  then show "\<not> \<bar>cos (pi / 4)\<bar> < (25::real) / 10 ^ 17" "\<not> \<bar>sin (pi / 4)\<bar> < (25::real) / 10 ^ 17"
    by (simp_all add: cos_45 sin_45)
qed

lemma rotate_geom_45: "rotate_geom geom 45 c = map (rotate_about c 45) geom"
  unfolding rotate_geom_def rotate_about_def angle_45 Let_def
  by (simp only: cos_sin_45_big if_False) (simp add: algebra_simps)

lemma candidate_polygon_rotated:
  "candidate_polygon p s =
     map (rotate_about (real_of_int (fst p) + s / 2, real_of_int (snd p) + s / 2) 45) (square p s)"
  by (simp add: candidate_polygon_def rotate_geom_45 centroid_square)

lemma candidate_polygon_diamond:
  "candidate_polygon p s =
     diamond (real_of_int (fst p) + s / 2, real_of_int (snd p) + s / 2) (s * sqrt 2 / 2)"
  unfolding candidate_polygon_rotated
  by (simp add: square_def diamond_def rotate_about_def cos_45 sin_45 field_simps)

lemma signed_area2_diamond: "signed_area2 (diamond c d) = - 4 * d\<^sup>2"
  by (simp add: signed_area2_def diamond_def edges4 cross_def power2_eq_square algebra_simps)

lemma area_candidate_polygon: "area (candidate_polygon p s) = s\<^sup>2"
proof -
  have "(s * sqrt 2 / 2)\<^sup>2 = s\<^sup>2 / 2"
    by (simp add: power2_eq_square field_simps)
  then show ?thesis
    by (simp add: area_def candidate_polygon_diamond signed_area2_diamond)
qed

section \<open>What the loop accepts\<close>

lemma fold_flag:
  "fold (\<lambda>a flag. if P a then True else flag) xs b \<longleftrightarrow> b \<or> (\<exists>a\<in>set xs. P a)"
  by (induction xs arbitrary: b) auto

lemma intersects_iff: "intersects w poly \<longleftrightarrow> (\<exists>a\<in>set (aoi w). poly_within w poly a)"
  by (simp add: intersects_def fold_flag)

lemma pass_geoms:
  assumes "sample_pass n f w sc s = Next s'" "g \<in> set (out_geom s')"
  shows "g \<in> set (out_geom s) \<or> candidate w sc (pos s) = Inr g \<and> intersects w g"
proof -
  from sample_pass_Next[OF assms(1)] obtain poly where c: "candidate w sc (pos s) = Inr poly"
    and i: "if intersects w poly
            then \<exists>rows m d. precise_matches w poly = Inr rows \<and> mean (map GRID_CODE rows) = Inr m \<and>
                   pstdev (map GRID_CODE rows) = Inr d \<and>
                   s' = s\<lparr>out_mean := out_mean s @ [m], out_stdev := out_stdev s @ [d],
                            out_geom := out_geom s @ [poly], count := count s + 1, pos := pos s + 3\<rparr>
            else s' = s\<lparr>count := count s + 1, pos := pos s + 3\<rparr>"
    by blast
  show ?thesis
  proof (cases "intersects w poly")
    case True
    with i have "out_geom s' = out_geom s @ [poly]" by auto
    with assms(2) c True show ?thesis by auto
  next
    case False
    with i have "out_geom s' = out_geom s" by simp
    with assms(2) show ?thesis by simp
  qed
qed

lemma passes_geoms:
  assumes "passes n f w sc k st = Some st'"
    and "\<forall>g\<in>set (out_geom st). \<exists>q. candidate w sc q = Inr g \<and> intersects w g"
  shows "\<forall>g\<in>set (out_geom st'). \<exists>q. candidate w sc q = Inr g \<and> intersects w g"
  by (rule passes_invariant[OF assms(1), where I = "\<lambda>s. \<forall>g\<in>set (out_geom s). \<exists>q. candidate w sc q = Inr g \<and> intersects w g"])
     (use assms(2) in \<open>auto dest: pass_geoms\<close>)

lemma leaves_geoms:
  "leaves (sample_pass n f w sc st) = Some r \<Longrightarrow> out_geom (final_state r) = out_geom st"
  by (cases "sample_pass n f w sc st")
     (auto simp: leaves_def final_state_def sample_pass_Break dest!: sample_pass_Raise)

lemma loop_geoms:
  assumes "sample_loop n f w sc (init_state p) = Some r" "g \<in> set (out_geom (final_state r))"
  shows "\<exists>q. candidate w sc q = Inr g \<and> intersects w g"
proof -
  from loop_Some_passes[OF assms(1)] obtain k st where
    k: "passes n f w sc k (init_state p) = Some st" and l: "leaves (sample_pass n f w sc st) = Some r"
    by blast
  have "\<forall>g\<in>set (out_geom st). \<exists>q. candidate w sc q = Inr g \<and> intersects w g"
    by (rule passes_geoms[OF k]) (simp add: init_state_def)
  with leaves_geoms[OF l] assms(2) show ?thesis by simp
qed

lemma result_mem:
  assumes "s \<in> set (result st)"
  shows "s_geometry s \<in> set (out_geom st) \<and> s_area s = area (s_geometry s) * (1 / 10000)"
proof -
  from assms obtain m d g where "(m, d, g) \<in> set (zip (out_mean st) (zip (out_stdev st) (out_geom st)))"
    and s: "s = \<lparr>s_mean = m, s_stdev = d, s_geometry = g, s_area = area g * (1 / 10000)\<rparr>"
    by (auto simp: result_def)
  then have "g \<in> set (out_geom st)"
    by (auto dest!: set_zip_rightD)
  with s show ?thesis by simp
qed

lemma uniform_between:
  assumes "low \<le> high" "0 \<le> u" "u \<le> 1"
  shows "low \<le> uniform low high u \<and> uniform low high u \<le> high"
proof -
  have "0 \<le> (high - low) * u" using assms by simp
  moreover have "(high - low) * u \<le> (high - low) * 1"
    using assms by (intro mult_left_mono) simp_all
  ultimately show ?thesis by (simp add: uniform_def)
qed

lemma candidate_size_Inr:
  assumes "candidate_size sc u = Inr side"
  shows "0 \<le> side \<and> side\<^sup>2 = uniform (fst sc) (snd sc) u * 10000"
  using assms by (auto simp: candidate_size_def pow_half_def split: if_splits)

lemma candidate_Inr:
  assumes "candidate w sc q = Inr g"
  shows "\<exists>side. candidate_size sc (random_sample w q) = Inr side \<and>
           g = candidate_polygon
                 (candidate_point (bounds w) side (random_sample w (q + 1)) (random_sample w (q + 2))) side"
  using assms by (auto simp: candidate_def split: sum.splits)

lemma candidate_area:
  assumes "candidate w sc q = Inr g"
  shows "area g * (1 / 10000) = uniform (fst sc) (snd sc) (random_sample w q)"
proof -
  from candidate_Inr[OF assms] obtain side where
    s: "candidate_size sc (random_sample w q) = Inr side" and
    g: "g = candidate_polygon (candidate_point (bounds w) side (random_sample w (q + 1)) (random_sample w (q + 2))) side"
    by blast
  from candidate_size_Inr[OF s] g show ?thesis
    by (simp add: area_candidate_polygon)
qed

section \<open>A point within a polygon lies in its bounds\<close>










section \<open>The rows a candidate aggregates\<close>




section \<open>Truncation of the origin\<close>

lemma py_int_floor: "0 \<le> x \<Longrightarrow> py_int x = \<lfloor>x\<rfloor>"
  by (simp add: py_int_def)

lemma py_int_ceiling: "x \<le> 0 \<Longrightarrow> py_int x = \<lceil>x\<rceil>"
  by (cases "x = 0") (simp_all add: py_int_def)


lemma py_int_negative: "x < 0 \<Longrightarrow> x \<notin> \<int> \<Longrightarrow> py_int x = \<lfloor>x\<rfloor> + 1"
  by (auto simp: py_int_def ceiling_altdef) (metis Ints_of_int)


section \<open>A run that accepts nothing\<close>

lemma candidate_size_ok:
  assumes "0 \<le> fst sc" "fst sc \<le> snd sc" "0 \<le> u" "u \<le> 1"
  shows "candidate_size sc u = Inr (sqrt (uniform (fst sc) (snd sc) u * 10000))"
proof -
  from uniform_between[OF assms(2-4)] assms(1) have "0 \<le> uniform (fst sc) (snd sc) u" by simp
  then show ?thesis by (simp add: candidate_size_def pow_half_def)
qed

lemma candidate_ok:
  assumes "0 \<le> fst sc" "fst sc \<le> snd sc" "0 \<le> random_sample w q" "random_sample w q \<le> 1"
  shows "\<exists>g. candidate w sc q = Inr g"
  by (simp add: candidate_def candidate_size_ok[OF assms])

lemma pass_rejected:
  assumes "candidate w sc (pos st) = Inr g" "\<not> intersects w g"
    "int (length (out_geom st)) < n" "count st + 1 \<noteq> n * f"
  shows "sample_pass n f w sc st = Next (st\<lparr>count := count st + 1, pos := pos st + 3\<rparr>)"
  using assms by (auto simp: sample_pass_def candidate_def Let_def split: sum.splits)

lemma pass_budget:
  assumes "int (length (out_geom st)) < n" "count st + 1 = n * f"
  shows "sample_pass n f w sc st = Break (st\<lparr>count := n * f\<rparr>)"
  using assms by (simp add: sample_pass_def Let_def)

lemma loop_empty_aoi:
  assumes "aoi w = []" "0 \<le> fst sc" "fst sc \<le> snd sc"
    and rs: "\<forall>i. 0 \<le> random_sample w i \<and> random_sample w i \<le> 1"
    and "int (length (out_geom st)) < n" "count st < n * f"
  shows "sample_loop n f w sc st =
           Some (Inr (st\<lparr>count := n * f, pos := pos st + 3 * nat (n * f - count st - 1)\<rparr>))"
  using assms(5,6)
proof (induction "nat (n * f - count st)" arbitrary: st rule: less_induct)
  case less
  show ?case
  proof (cases "count st + 1 = n * f")
    case True
    then have "nat (n * f - count st - 1) = 0" by simp
    with pass_budget[OF less.prems(1) True, of w sc] show ?thesis
      by (subst sample_loop.simps) simp
  next
    case False
    from candidate_ok[OF assms(2,3), of w "pos st"] rs obtain g where g: "candidate w sc (pos st) = Inr g"
      by blast
    have "\<not> intersects w g" by (simp add: intersects_iff assms(1))
    from pass_rejected[OF g this less.prems(1) False]
    have p: "sample_pass n f w sc st = Next (st\<lparr>count := count st + 1, pos := pos st + 3\<rparr>)" .
    let ?st = "st\<lparr>count := count st + 1, pos := pos st + 3\<rparr>"
    have m: "nat (n * f - count ?st) < nat (n * f - count st)" using less.prems(2) by simp
    have l: "int (length (out_geom ?st)) < n" using less.prems(1) by simp
    have c: "count ?st < n * f" using less.prems(2) False by simp
    have "3 + 3 * nat (n * f - (count st + 1) - 1) = 3 * nat (n * f - count st - 1)"
      using c by simp
    with less.hyps[OF m l c] p show ?thesis
      by (subst sample_loop.simps) (simp add: add.assoc)
  qed
qed

lemma run_class_empty_aoi:
  assumes "aoi w = []" "0 \<le> fst sc" "fst sc \<le> snd sc"
    and rs: "\<forall>i. 0 \<le> random_sample w i \<and> random_sample w i \<le> 1"
    and "0 < n" "0 < f"
  shows "run_class n f w sc (p, out) = Some (Inr (p + 3 * nat (n * f - 1), out))"
proof -
  have "int (length (out_geom (init_state p))) < n" "count (init_state p) < n * f"
    using assms(5,6) by (simp_all add: init_state_def)
  from loop_empty_aoi[OF assms(1-4) this]
  show ?thesis by (simp add: run_class_def export_def init_state_def)
qed

lemma run_classes_empty_aoi:
  assumes "aoi w = []" "\<forall>sc\<in>set scs. 0 \<le> fst sc \<and> fst sc \<le> snd sc"
    and rs: "\<forall>i. 0 \<le> random_sample w i \<and> random_sample w i \<le> 1"
    and "0 < n" "0 < f"
  shows "run_classes n f w scs (p, out) = Some (Inr (p + length scs * (3 * nat (n * f - 1)), out))"
  using assms(2)
proof (induction scs arbitrary: p)
  case Nil
  show ?case by simp
next
  case (Cons sc scs)
  then have sc: "0 \<le> fst sc" "fst sc \<le> snd sc" by simp_all
  from Cons have "run_classes n f w scs (p + 3 * nat (n * f - 1), out) =
      Some (Inr (p + 3 * nat (n * f - 1) + length scs * (3 * nat (n * f - 1)), out))" by simp
  with run_class_empty_aoi[OF assms(1) sc rs assms(4,5), of p out] show ?case
    by (simp add: algebra_simps)
qed

lemma main_empty_aoi:
  assumes "aoi w = []" and rs: "\<forall>i. 0 \<le> random_sample w i \<and> random_sample w i \<le> 1"
    and "data w \<noteq> []"
  shows "main w = Some (Inr (899982, []))"
proof -
  from assms(3) obtain b where b: "total_bounds (data w) = Some b"
    by (simp add: total_bounds_def)
  have a: "aoi (w\<lparr>bounds := b\<rparr>) = []" using assms(1) by simp
  have r: "\<forall>i. 0 \<le> random_sample (w\<lparr>bounds := b\<rparr>) i \<and> random_sample (w\<lparr>bounds := b\<rparr>) i \<le> 1"
    using rs by simp
  have "\<forall>sc\<in>set sample_sizes. 0 \<le> fst sc \<and> fst sc \<le> snd sc"
    by (simp add: sample_sizes_def)
  from run_classes_empty_aoi[OF a this r, of sample_n termination_f 0 "[]"]
  show ?thesis by (simp add: main_def b sample_n_def termination_f_def sample_sizes_def)
qed

section \<open>Points within a square standing on a corner\<close>

lemma cancel_d:
  fixes d :: real
  assumes "0 < d"
  shows "(- d) * a = d * b \<longleftrightarrow> - a = b" "d * a = d * b \<longleftrightarrow> a = b"
        "d * a = (- d) * b \<longleftrightarrow> a = - b" "(- d) * a = (- d) * b \<longleftrightarrow> a = b"
proof -
  have "(- d) * a = d * b \<longleftrightarrow> d * (- a) = d * b" by simp
  also have "\<dots> \<longleftrightarrow> - a = b" using assms by (simp only: mult_cancel_left) simp
  finally show "(- d) * a = d * b \<longleftrightarrow> - a = b" .
  show "d * a = d * b \<longleftrightarrow> a = b" using assms by simp
  have "d * a = (- d) * b \<longleftrightarrow> d * a = d * (- b)" by simp
  also have "\<dots> \<longleftrightarrow> a = - b" using assms by (simp only: mult_cancel_left) simp
  finally show "d * a = (- d) * b \<longleftrightarrow> a = - b" .
  show "(- d) * a = (- d) * b \<longleftrightarrow> a = b" using assms by simp
qed

lemma point_within_diamond:
  assumes d: "0 < d"
  shows "point_within p (diamond c d) \<longleftrightarrow> \<bar>fst p - fst c\<bar> + \<bar>snd p - snd c\<bar> < d"
proof -
  obtain px py where p: "p = (px, py)" by (cases p)
  obtain cx cy where c: "c = (cx, cy)" by (cases c)
  let ?B = "(cx, cy - d)" and ?L = "(cx - d, cy)" and ?T = "(cx, cy + d)" and ?R = "(cx + d, cy)"
  have o1: "on_segment p (?B, ?L) \<longleftrightarrow> (px - cx) + (py - cy) = - d \<and> cx - d \<le> px \<and> px \<le> cx \<and> cy - d \<le> py \<and> py \<le> cy"
    using d cancel_d(1)[OF d, of "py - (cy - d)" "px - cx"] by (auto simp: on_segment_def p)
  have o2: "on_segment p (?L, ?T) \<longleftrightarrow> (py - cy) - (px - cx) = d \<and> cx - d \<le> px \<and> px \<le> cx \<and> cy \<le> py \<and> py \<le> cy + d"
    using d cancel_d(2)[OF d, of "py - cy" "px - (cx - d)"] by (auto simp: on_segment_def p)
  have o3: "on_segment p (?T, ?R) \<longleftrightarrow> (px - cx) + (py - cy) = d \<and> cx \<le> px \<and> px \<le> cx + d \<and> cy \<le> py \<and> py \<le> cy + d"
    using d cancel_d(3)[OF d, of "py - (cy + d)" "px - cx"] by (auto simp: on_segment_def p)
  have o4: "on_segment p (?R, ?B) \<longleftrightarrow> (px - cx) - (py - cy) = d \<and> cx \<le> px \<and> px \<le> cx + d \<and> cy - d \<le> py \<and> py \<le> cy"
    using d cancel_d(4)[OF d, of "py - cy" "px - (cx + d)"] by (auto simp: on_segment_def p)
  have c1: "crosses p (?B, ?L) \<longleftrightarrow> cy - d \<le> py \<and> py < cy \<and> (px - cx) + (py - cy) < - d"
    using d by (auto simp: crosses_def p)
  have c2: "crosses p (?L, ?T) \<longleftrightarrow> cy \<le> py \<and> py < cy + d \<and> (px - cx) - (py - cy) < - d"
    using d by (auto simp: crosses_def p)
  have c3: "crosses p (?T, ?R) \<longleftrightarrow> cy \<le> py \<and> py < cy + d \<and> (px - cx) + (py - cy) < d"
    using d by (auto simp: crosses_def p)
  have c4: "crosses p (?R, ?B) \<longleftrightarrow> cy - d \<le> py \<and> py < cy \<and> (px - cx) - (py - cy) < d"
    using d by (auto simp: crosses_def p)
  have e: "edges (diamond c d) = [(?B, ?L), (?L, ?T), (?T, ?R), (?R, ?B)]"
    by (simp add: diamond_def edges4 c)
  show ?thesis
    unfolding point_within_def e
    apply (simp only: list_ex_Cons_iff list_ex_Nil_iff filter.simps o1 o2 o3 o4 c1 c2 c3 c4)
    apply (simp only: p c fst_conv snd_conv)
    using d
    apply (auto split: if_splits)
    done
qed

lemma point_within_box:
  assumes "x0 < x1" "y0 < y1"
  shows "point_within p (box x0 y0 x1 y1) \<longleftrightarrow> x0 < fst p \<and> fst p < x1 \<and> y0 < snd p \<and> snd p < y1"
proof -
  obtain px py where p: "p = (px, py)" by (cases p)
  have e: "edges (box x0 y0 x1 y1) =
             [((x0, y0), (x0, y1)), ((x0, y1), (x1, y1)), ((x1, y1), (x1, y0)), ((x1, y0), (x0, y0))]"
    by (simp add: box_def edges4)
  have o1: "on_segment p ((x0, y0), (x0, y1)) \<longleftrightarrow> px = x0 \<and> y0 \<le> py \<and> py \<le> y1"
    using assms by (auto simp: on_segment_def p)
  have o2: "on_segment p ((x0, y1), (x1, y1)) \<longleftrightarrow> py = y1 \<and> x0 \<le> px \<and> px \<le> x1"
    using assms by (auto simp: on_segment_def p)
  have o3: "on_segment p ((x1, y1), (x1, y0)) \<longleftrightarrow> px = x1 \<and> y0 \<le> py \<and> py \<le> y1"
    using assms by (auto simp: on_segment_def p)
  have o4: "on_segment p ((x1, y0), (x0, y0)) \<longleftrightarrow> py = y0 \<and> x0 \<le> px \<and> px \<le> x1"
    using assms by (auto simp: on_segment_def p)
  have c1: "crosses p ((x0, y0), (x0, y1)) \<longleftrightarrow> y0 \<le> py \<and> py < y1 \<and> px < x0"
    using assms by (auto simp: crosses_def p)
  have c2: "crosses p ((x0, y1), (x1, y1)) \<longleftrightarrow> False"
    by (auto simp: crosses_def p)
  have c3: "crosses p ((x1, y1), (x1, y0)) \<longleftrightarrow> y0 \<le> py \<and> py < y1 \<and> px < x1"
    using assms by (auto simp: crosses_def p)
  have c4: "crosses p ((x1, y0), (x0, y0)) \<longleftrightarrow> False"
    by (auto simp: crosses_def p)
  show ?thesis
    unfolding point_within_def e
    apply (simp only: list_ex_Cons_iff list_ex_Nil_iff filter.simps o1 o2 o3 o4 c1 c2 c3 c4)
    apply (simp only: p fst_conv snd_conv)
    using assms
    apply (auto split: if_splits)
    done
qed

lemma poly_bounds_diamond:
  assumes "0 \<le> d"
  shows "poly_bounds (diamond c d) = (fst c - d, snd c - d, fst c + d, snd c + d)"
proof -
  have "Min {fst c, fst c - d, fst c + d} = fst c - d" "Max {fst c, fst c - d, fst c + d} = fst c + d"
       "Min {snd c - d, snd c, snd c + d} = snd c - d" "Max {snd c - d, snd c, snd c + d} = snd c + d"
    using assms by (simp_all add: min_def max_def)
  then show ?thesis
    by (simp add: poly_bounds_def diamond_def insert_commute)
qed

lemma sqrt2_bounds: "1 < sqrt 2" "sqrt 2 < 2"
proof -
  show "1 < sqrt 2" by simp
  have "sqrt 2 < sqrt 4" by (simp only: real_sqrt_less_iff)
  then show "sqrt 2 < 2" by simp
qed

section \<open>The example run\<close>

lemma sqrt_10000: "sqrt 10000 = 100"
proof -
  have "sqrt ((100::real)\<^sup>2) = 100" by simp
  then show ?thesis by simp
qed

lemma example_candidate: "candidate example_env (1, 2) q = Inr example_polygon"
proof -
  have s: "candidate_size (1, 2) 0 = Inr 100"
    by (simp add: candidate_size_def uniform_def pow_half_def sqrt_10000)
  have p: "candidate_point (0, 0, 100, 100) 100 0 0 = (0, 0)"
    by (simp add: candidate_point_def uniform_def py_int_def)
  have "candidate_polygon (0, 0) 100 = example_polygon"
    by (simp add: candidate_polygon_diamond example_polygon_def)
  with s p show ?thesis
    by (simp add: candidate_def example_env_def)
qed

lemma example_radius: "0 < 50 * sqrt 2" "50 * sqrt 2 < 100"
  using sqrt2_bounds by simp_all

lemma diamond_in_box:
  assumes "0 < d" "d < 100"
  shows "vertices_within (diamond (50, 50) d) (box (- 100) (- 100) 200 200)"
  using assms by (simp add: vertices_within_def diamond_def point_within_box)

lemma example_intersects: "intersects example_env example_polygon"
  using diamond_in_box[OF example_radius]
  by (simp add: intersects_iff example_env_def example_polygon_def)

lemma diamond_possible:
  assumes "50 < d" "d < 100"
  shows "rtree_intersection (build_idx example_data) (poly_bounds (diamond (50, 50) d)) = [0, 1, 2]"
proof -
  have b: "poly_bounds (diamond (50, 50) d) = (50 - d, 50 - d, 50 + d, 50 + d)"
    using assms by (simp add: poly_bounds_diamond)
  have i: "build_idx example_data = [(0, (0, 0, 0, 0)), (1, (50, 50, 50, 50)), (2, (100, 100, 100, 100))]"
    by (simp add: build_idx_def example_data_def point_bounds_def upt_rec)
  show ?thesis
    unfolding b i using assms
    by (simp add: rtree_intersection_def bbox_intersects_def)
qed

lemma diamond_precise:
  assumes "50 < d" "d < 100"
  shows "filter (\<lambda>r. point_within (geometry r) (diamond (50, 50) d)) example_data =
           [\<lparr>geometry = (50, 50), GRID_CODE = 7\<rparr>]"
proof -
  have d: "0 < d" using assms by simp
  show ?thesis
    using assms by (simp add: example_data_def point_within_diamond[OF d])
qed

lemma example_precise:
  "precise_matches example_env example_polygon = Inr [\<lparr>geometry = (50, 50), GRID_CODE = 7\<rparr>]"
proof -
  have r: "50 < 50 * sqrt 2" "50 * sqrt 2 < 100"
    using sqrt2_bounds by simp_all
  have "iloc example_data [0, 1, 2] = Inr example_data"
    by (simp add: iloc_def example_data_def)
  then show ?thesis
    by (simp add: precise_matches_def example_env_def example_polygon_def
        diamond_possible[OF r] diamond_precise[OF r])
qed

lemma example_stats: "mean [7] = Inr 7" "pstdev [7] = Inr 0"
  by (simp_all add: mean_def pstdev_def)

lemma pass_accepted:
  assumes "candidate w sc (pos st) = Inr g" "intersects w g" "precise_matches w g = Inr rows"
    "mean (map GRID_CODE rows) = Inr m" "pstdev (map GRID_CODE rows) = Inr s"
    "int (length (out_geom st)) < n" "count st + 1 \<noteq> n * f"
  shows "sample_pass n f w sc st =
           Next (st\<lparr>count := count st + 1, pos := pos st + 3, out_mean := out_mean st @ [m],
                     out_stdev := out_stdev st @ [s], out_geom := out_geom st @ [g]\<rparr>)"
  using assms by (auto simp: sample_pass_def candidate_def Let_def split: sum.splits)

lemma pass_empty:
  assumes "candidate w sc (pos st) = Inr g" "intersects w g" "precise_matches w g = Inr []"
    "int (length (out_geom st)) < n" "count st + 1 \<noteq> n * f"
  shows "sample_pass n f w sc st = Raise StatisticsError (st\<lparr>count := count st + 1, pos := pos st + 3\<rparr>)"
  using assms by (auto simp: sample_pass_def candidate_def Let_def mean_def split: sum.splits)

lemma example_pass:
  assumes "int k < n" "int k + 1 \<noteq> n * f"
  shows "sample_pass n f example_env (1, 2) (example_state k) = Next (example_state (Suc k))"
proof -
  have "sample_pass n f example_env (1, 2) (example_state k) =
          Next ((example_state k)\<lparr>count := count (example_state k) + 1, pos := pos (example_state k) + 3,
                   out_mean := out_mean (example_state k) @ [7],
                   out_stdev := out_stdev (example_state k) @ [0],
                   out_geom := out_geom (example_state k) @ [example_polygon]\<rparr>)"
    by (rule pass_accepted[OF example_candidate example_intersects example_precise])
       (use assms in \<open>simp_all add: example_stats example_state_def\<close>)
  also have "\<dots> = Next (example_state (Suc k))"
    by (simp add: example_state_def replicate_append_same)
  finally show ?thesis .
qed

lemma example_passes:
  assumes "int (j + k) \<le> n" "int (j + k) < n * f"
  shows "passes n f example_env (1, 2) k (example_state j) = Some (example_state (j + k))"
  using assms
proof (induction k arbitrary: j)
  case 0
  show ?case by simp
next
  case (Suc k)
  have "sample_pass n f example_env (1, 2) (example_state j) = Next (example_state (Suc j))"
    using Suc.prems by (intro example_pass) simp_all
  moreover have "passes n f example_env (1, 2) k (example_state (Suc j)) = Some (example_state (Suc j + k))"
    using Suc.prems by (intro Suc.IH) simp_all
  ultimately show ?case by simp
qed

lemma example_init: "example_state 0 = init_state 0"
  by (simp add: example_state_def init_state_def)

lemma seg_len_square: "0 \<le> s \<Longrightarrow> map seg_len (edges (square p s)) = [s, s, s, s]"
  by (simp add: square_def edges4 seg_len_def)

lemma seg_len_candidate:
  assumes "0 \<le> s"
  shows "map seg_len (edges (candidate_polygon p s)) = [s, s, s, s]"
proof -
  have "(s * sqrt 2 / 2)\<^sup>2 + (s * sqrt 2 / 2)\<^sup>2 = s\<^sup>2"
    by (simp add: power2_eq_square field_simps)
  then have "sqrt ((s * sqrt 2 / 2)\<^sup>2 + (s * sqrt 2 / 2)\<^sup>2) = s"
    using assms by simp
  then show ?thesis
    by (simp add: candidate_polygon_diamond diamond_def edges4 seg_len_def)
qed

lemma example_passes_init:
  assumes "int k \<le> n" "int k < n * f"
  shows "passes n f example_env (1, 2) k (init_state 0) = Some (example_state k)"
  using example_passes[of 0 k n f] assms by (simp add: example_init)

lemma example_loop_target:
  "sample_loop 2 3 example_env (1, 2) (init_state 0) = Some (Inr (example_state 2))"
proof -
  have "passes 2 3 example_env (1, 2) 2 (init_state 0) = Some (example_state 2)"
    by (rule example_passes_init) simp_all
  then have "sample_loop 2 3 example_env (1, 2) (init_state 0) =
             sample_loop 2 3 example_env (1, 2) (example_state 2)"
    by (rule loop_passes)
  also have "\<dots> = Some (Inr (example_state 2))"
    by (rule loop_leaves) (simp add: leaves_def sample_pass_def example_state_def)
  finally show ?thesis .
qed


lemma example_result:
  "result (example_state 2) =
     [\<lparr>s_mean = 7, s_stdev = 0, s_geometry = example_polygon, s_area = 1\<rparr>,
      \<lparr>s_mean = 7, s_stdev = 0, s_geometry = example_polygon, s_area = 1\<rparr>]"
proof -
  have "area example_polygon = 100\<^sup>2"
    using area_candidate_polygon[of "(0, 0)" 100]
    by (simp add: candidate_polygon_diamond example_polygon_def)
  then show ?thesis
    by (simp add: result_def example_state_def numeral_2_eq_2)
qed

lemma candidate_cong:
  "bounds w = bounds w' \<Longrightarrow> random_sample w = random_sample w' \<Longrightarrow> candidate w sc q = candidate w' sc q"
  by (simp add: candidate_def cong: sum.case_cong)

lemma sparse_candidate: "candidate sparse_env (1, 2) q = Inr example_polygon"
proof -
  have "candidate sparse_env (1, 2) q = candidate example_env (1, 2) q"
    by (rule candidate_cong) (simp_all add: sparse_env_def)
  then show ?thesis by (simp add: example_candidate)
qed

lemma sparse_intersects: "intersects sparse_env example_polygon"
  using example_intersects by (simp add: sparse_env_def intersects_def example_env_def)

lemma sparse_precise: "precise_matches sparse_env example_polygon = Inr []"
proof -
  have r: "0 < 50 * sqrt 2" "50 * sqrt 2 < 100"
    using sqrt2_bounds by simp_all
  have b: "poly_bounds example_polygon = (50 - 50 * sqrt 2, 50 - 50 * sqrt 2, 50 + 50 * sqrt 2, 50 + 50 * sqrt 2)"
    by (simp add: example_polygon_def poly_bounds_diamond)
  have i: "rtree_intersection (build_idx [\<lparr>geometry = (0, 0), GRID_CODE = 3\<rparr>]) (poly_bounds example_polygon) = [0]"
    unfolding b using sqrt2_bounds
    by (simp add: build_idx_def point_bounds_def rtree_intersection_def bbox_intersects_def)
  have w: "\<not> point_within (0, 0) example_polygon"
    using r by (simp add: example_polygon_def point_within_diamond[OF r(1)])
  show ?thesis
    using w by (simp add: precise_matches_def sparse_env_def example_env_def i iloc_def)
qed




lemma no_aoi_loop:
  "sample_loop 2 3 no_aoi_env (1, 2) (init_state 0) =
     Some (Inr \<lparr>out_mean = [], out_stdev = [], out_geom = [], count = 6, pos = 15\<rparr>)"
proof -
  have "sample_loop 2 3 no_aoi_env (1, 2) (init_state 0) =
          Some (Inr ((init_state 0)\<lparr>count := 2 * 3,
                 pos := pos (init_state 0) + 3 * nat (2 * 3 - count (init_state 0) - 1)\<rparr>))"
    by (rule loop_empty_aoi) (simp_all add: no_aoi_env_def example_env_def init_state_def)
  then show ?thesis by (simp add: init_state_def)
qed




lemma uniform_reversed:
  assumes "high \<le> low" "0 \<le> u" "u \<le> 1"
  shows "high \<le> uniform low high u \<and> uniform low high u \<le> low"
proof -
  have "0 \<le> (low - high) * u" using assms by simp
  moreover have "(low - high) * u \<le> (low - high) * 1"
    using assms by (intro mult_left_mono) simp_all
  ultimately show ?thesis by (simp add: uniform_def algebra_simps)
qed

lemma no_aoi_variates:
  "aoi no_aoi_env = []" "\<forall>i. 0 \<le> random_sample no_aoi_env i \<and> random_sample no_aoi_env i \<le> 1"
  "data no_aoi_env \<noteq> []"
  by (simp_all add: no_aoi_env_def example_env_def example_data_def)

lemma negative_bounds:
  "total_bounds (data (negative_env\<lparr>aoi := []\<rparr>)) = Some (- 10, - 10, 0, 0)"
  by (simp add: total_bounds_def negative_env_def)

section \<open>The claims\<close>




text \<open>
  C2. The flag that accepts a candidate is set exactly when some single polygon of the AOI
  contains the candidate: the polygons are tested one by one with the library's
  \<^verbatim>\<open>within\<close> and the results or-ed; no union of the polygons is ever formed. Hence, when
  the loop is left, every geometry in the result list, and every geometry of an exported
  record, lies within at least one polygon of the AOI. This holds for whatever predicate
  the library computes.
\<close>

theorem accepted_within_aoi:
  "(intersects w poly \<longleftrightarrow> (\<exists>a\<in>set (aoi w). poly_within w poly a)) \<and>
   (sample_loop n f w sc (init_state p) = Some r \<longrightarrow>
      (\<forall>g\<in>set (out_geom (final_state r)). \<exists>a\<in>set (aoi w). poly_within w g a) \<and>
      (\<forall>s\<in>set (result (final_state r)). \<exists>a\<in>set (aoi w). poly_within w (s_geometry s) a))"
proof (intro conjI impI ballI)
  show "intersects w poly \<longleftrightarrow> (\<exists>a\<in>set (aoi w). poly_within w poly a)"
    by (rule intersects_iff)
next
  fix g
  assume "sample_loop n f w sc (init_state p) = Some r" "g \<in> set (out_geom (final_state r))"
  from loop_geoms[OF this] show "\<exists>a\<in>set (aoi w). poly_within w g a"
    by (auto simp: intersects_iff)
next
  fix s
  assume l: "sample_loop n f w sc (init_state p) = Some r" and "s \<in> set (result (final_state r))"
  then have "s_geometry s \<in> set (out_geom (final_state r))" by (simp add: result_mem)
  from loop_geoms[OF l this] show "\<exists>a\<in>set (aoi w). poly_within w (s_geometry s) a"
    by (auto simp: intersects_iff)
qed

theorem accepted_within_aoi_witness:
  "sample_loop 2 3 example_env (1, 2) (init_state 0) = Some (Inr (example_state 2)) \<and>
   example_polygon \<in> set (out_geom (final_state (Inr (example_state 2)))) \<and>
   intersects example_env example_polygon \<and>
   (\<exists>a\<in>set (aoi example_env). poly_within example_env example_polygon a)"
proof -
  have m: "example_polygon \<in> set (out_geom (final_state (Inr (example_state 2))))"
    by (simp add: final_state_def example_state_def)
  from accepted_within_aoi[of example_env example_polygon 2 3 "(1, 2)" 0 "Inr (example_state 2)"]
    example_loop_target m example_intersects
  show ?thesis by blast
qed

text \<open>
  C3. For a size class with \<open>min \<le> max\<close> and variates between 0 and 1, every record
  exported after the loop has \<open>min \<le> area \<le> max\<close>. Its geometry is a candidate of side
  \<open>sqrt (a * 10000)\<close> for the area \<open>a = uniform min max u\<close> drawn in hectares; the square at
  the truncated origin and the rotated square both have four sides of that length and the
  area \<open>side\<^sup>2\<close>, so the exported area, \<open>geometry.area * 0.0001\<close>, is \<open>a\<close> itself. Over
  the reals this is exact; the floating-point tolerance of the claim is outside the model.
\<close>

theorem exported_area_in_class:
  assumes "fst sc \<le> snd sc"
    and "\<forall>i. 0 \<le> random_sample w i \<and> random_sample w i \<le> 1"
    and "sample_loop n f w sc (init_state p) = Some r"
    and "s \<in> set (result (final_state r))"
  shows "fst sc \<le> s_area s \<and> s_area s \<le> snd sc \<and>
         (\<exists>q side pt. candidate_size sc (random_sample w q) = Inr side \<and>
            side = sqrt (uniform (fst sc) (snd sc) (random_sample w q) * 10000) \<and>
            s_geometry s = candidate_polygon pt side \<and>
            map seg_len (edges (square pt side)) = [side, side, side, side] \<and>
            map seg_len (edges (s_geometry s)) = [side, side, side, side] \<and>
            area (square pt side) = side\<^sup>2 \<and> area (s_geometry s) = side\<^sup>2 \<and>
            s_area s = area (s_geometry s) * (1 / 10000) \<and>
            s_area s = uniform (fst sc) (snd sc) (random_sample w q))"
proof -
  from result_mem[OF assms(4)] have g: "s_geometry s \<in> set (out_geom (final_state r))"
    and a: "s_area s = area (s_geometry s) * (1 / 10000)" by simp_all
  from loop_geoms[OF assms(3) g] obtain q where q: "candidate w sc q = Inr (s_geometry s)" by blast
  from candidate_Inr[OF q] obtain side where
    s: "candidate_size sc (random_sample w q) = Inr side" and
    e: "s_geometry s = candidate_polygon
          (candidate_point (bounds w) side (random_sample w (q + 1)) (random_sample w (q + 2))) side"
    by blast
  let ?pt = "candidate_point (bounds w) side (random_sample w (q + 1)) (random_sample w (q + 2))"
  from candidate_size_Inr[OF s] have side: "0 \<le> side" "side\<^sup>2 = uniform (fst sc) (snd sc) (random_sample w q) * 10000"
    by simp_all
  from s have sq: "side = sqrt (uniform (fst sc) (snd sc) (random_sample w q) * 10000)"
    by (auto simp: candidate_size_def pow_half_def split: if_splits)
  have u: "s_area s = uniform (fst sc) (snd sc) (random_sample w q)"
    using a candidate_area[OF q] by simp
  from uniform_between[OF assms(1), of "random_sample w q"] assms(2) u
  have r: "fst sc \<le> s_area s" "s_area s \<le> snd sc" by simp_all
  have l: "map seg_len (edges (square ?pt side)) = [side, side, side, side]"
    "map seg_len (edges (s_geometry s)) = [side, side, side, side]"
    using side(1) by (simp_all only: e seg_len_square seg_len_candidate)
  have ar: "area (square ?pt side) = side\<^sup>2" "area (s_geometry s) = side\<^sup>2"
    by (simp_all only: e area_square area_candidate_polygon)
  have "candidate_size sc (random_sample w q) = Inr side \<and>
        side = sqrt (uniform (fst sc) (snd sc) (random_sample w q) * 10000) \<and>
        s_geometry s = candidate_polygon ?pt side \<and>
        map seg_len (edges (square ?pt side)) = [side, side, side, side] \<and>
        map seg_len (edges (s_geometry s)) = [side, side, side, side] \<and>
        area (square ?pt side) = side\<^sup>2 \<and> area (s_geometry s) = side\<^sup>2 \<and>
        s_area s = area (s_geometry s) * (1 / 10000) \<and>
        s_area s = uniform (fst sc) (snd sc) (random_sample w q)"
    using s sq e l ar a u by (intro conjI)
  then have "\<exists>q side pt. candidate_size sc (random_sample w q) = Inr side \<and>
        side = sqrt (uniform (fst sc) (snd sc) (random_sample w q) * 10000) \<and>
        s_geometry s = candidate_polygon pt side \<and>
        map seg_len (edges (square pt side)) = [side, side, side, side] \<and>
        map seg_len (edges (s_geometry s)) = [side, side, side, side] \<and>
        area (square pt side) = side\<^sup>2 \<and> area (s_geometry s) = side\<^sup>2 \<and>
        s_area s = area (s_geometry s) * (1 / 10000) \<and>
        s_area s = uniform (fst sc) (snd sc) (random_sample w q)"
    by (intro exI)
  with r show ?thesis by (intro conjI)
qed

theorem exported_area_in_class_witness:
  "fst (1::real, 2::real) \<le> snd (1::real, 2::real) \<and>
   (\<forall>i. 0 \<le> random_sample example_env i \<and> random_sample example_env i \<le> 1) \<and>
   sample_loop 2 3 example_env (1, 2) (init_state 0) = Some (Inr (example_state 2)) \<and>
   \<lparr>s_mean = 7, s_stdev = 0, s_geometry = example_polygon, s_area = 1\<rparr>
     \<in> set (result (final_state (Inr (example_state 2)))) \<and>
   (1::real) \<le> s_area \<lparr>s_mean = 7, s_stdev = 0, s_geometry = example_polygon, s_area = 1\<rparr> \<and>
   s_area \<lparr>s_mean = 7, s_stdev = 0, s_geometry = example_polygon, s_area = 1\<rparr> \<le> (2::real)"
proof -
  let ?s = "\<lparr>s_mean = 7, s_stdev = 0, s_geometry = example_polygon, s_area = 1\<rparr>"
  have 1: "fst (1::real, 2::real) \<le> snd (1::real, 2::real)" by simp
  have 2: "\<forall>i. 0 \<le> random_sample example_env i \<and> random_sample example_env i \<le> 1"
    by (simp add: example_env_def)
  have 4: "?s \<in> set (result (final_state (Inr (example_state 2))))"
    by (simp add: final_state_def example_result)
  from exported_area_in_class[OF 1 2 example_loop_target 4] 1 2 4 example_loop_target
  show ?thesis by simp
qed

text \<open>
  C4. In a pass that goes on to build a candidate (the target is not reached, the budget
  is not exhausted), if the candidate is accepted by the AOI test and no point of the
  dataset is within it, \<^verbatim>\<open>mean\<close> raises StatisticsError: the pass, and with it the loop,
  ends with that exception, and the three result lists are what they were before the pass.
\<close>

theorem empty_sample_raises:
  assumes "int (length (out_geom st)) < n" and "count st + 1 \<noteq> n * f"
    and "candidate w sc (pos st) = Inr poly" and "intersects w poly"
    and "precise_matches w poly = Inr []"
  shows "mean (map GRID_CODE []) = Inl StatisticsError \<and>
         sample_pass n f w sc st = Raise StatisticsError (st\<lparr>count := count st + 1, pos := pos st + 3\<rparr>) \<and>
         sample_loop n f w sc st = Some (Inl (StatisticsError, st\<lparr>count := count st + 1, pos := pos st + 3\<rparr>)) \<and>
         out_mean (st\<lparr>count := count st + 1, pos := pos st + 3\<rparr>) = out_mean st \<and>
         out_stdev (st\<lparr>count := count st + 1, pos := pos st + 3\<rparr>) = out_stdev st \<and>
         out_geom (st\<lparr>count := count st + 1, pos := pos st + 3\<rparr>) = out_geom st"
proof -
  have m: "mean (map GRID_CODE []) = Inl StatisticsError" by (simp add: mean_def)
  have p: "sample_pass n f w sc st = Raise StatisticsError (st\<lparr>count := count st + 1, pos := pos st + 3\<rparr>)"
    by (rule pass_empty[OF assms(3,4,5,1,2)])
  then have "leaves (sample_pass n f w sc st) =
      Some (Inl (StatisticsError, st\<lparr>count := count st + 1, pos := pos st + 3\<rparr>))"
    by (simp add: leaves_def)
  then have "sample_loop n f w sc st = Some (Inl (StatisticsError, st\<lparr>count := count st + 1, pos := pos st + 3\<rparr>))"
    by (rule loop_leaves)
  with m p show ?thesis by simp
qed

theorem empty_sample_raises_witness:
  "int (length (out_geom (init_state 0))) < 2 \<and> count (init_state 0) + 1 \<noteq> 2 * 3 \<and>
   candidate sparse_env (1, 2) (pos (init_state 0)) = Inr example_polygon \<and>
   intersects sparse_env example_polygon \<and> precise_matches sparse_env example_polygon = Inr [] \<and>
   sample_loop 2 3 sparse_env (1, 2) (init_state 0) =
     Some (Inl (StatisticsError, \<lparr>out_mean = [], out_stdev = [], out_geom = [], count = 1, pos = 3\<rparr>))"
proof -
  have 1: "int (length (out_geom (init_state 0))) < 2" by (simp add: init_state_def)
  have 2: "count (init_state 0) + 1 \<noteq> 2 * 3" by (simp add: init_state_def)
  have 3: "candidate sparse_env (1, 2) (pos (init_state 0)) = Inr example_polygon"
    by (rule sparse_candidate)
  from empty_sample_raises[OF 1 2 3 sparse_intersects sparse_precise] 1 2 3 sparse_intersects sparse_precise
  show ?thesis by (simp add: init_state_def)
qed








text \<open>
  C8. When the loop of a size class ends normally, the class ends normally too, and a file
  is written under the name of the class exactly when the result list is not empty; with
  an empty list the files are as they were. The file written holds one record for each
  accepted geometry, with its mean, its standard deviation and its area in hectares.
\<close>

theorem export_iff_accepted:
  assumes "sample_loop n f w sc (init_state p) = Some (Inr st)"
  shows "run_class n f w sc (p, out) =
           Some (Inr (pos st, if 1 \<le> length (out_geom st) then out @ [(sc, result st)] else out)) \<and>
         ((\<exists>rows. (sc, rows) \<in> set (export sc st [])) \<longleftrightarrow> 1 \<le> length (out_geom st)) \<and>
         map s_geometry (result st) = out_geom st \<and>
         map s_mean (result st) = out_mean st \<and>
         map s_stdev (result st) = out_stdev st \<and>
         map s_area (result st) = map (\<lambda>g. area g * (1 / 10000)) (out_geom st)"
proof -
  from loop_Some_passes[OF assms] obtain k st0 where
    k: "passes n f w sc k (init_state p) = Some st0" and l: "leaves (sample_pass n f w sc st0) = Some (Inr st)"
    by blast
  let ?I = "\<lambda>s. length (out_mean s) = length (out_geom s) \<and> length (out_stdev s) = length (out_geom s)"
  have "?I st0"
    by (rule passes_invariant[OF k, where I = ?I])
       (auto simp: init_state_def dest!: sample_pass_Next split: if_splits)
  moreover from l have "out_mean st = out_mean st0 \<and> out_stdev st = out_stdev st0 \<and> out_geom st = out_geom st0"
    by (cases "sample_pass n f w sc st0") (auto simp: leaves_def sample_pass_Break)
  ultimately have "lists_agree (int (length (out_geom st))) st"
    by (simp add: lists_agree_def)
  from result_columns[OF this] have c: "map s_geometry (result st) = out_geom st"
    "map s_mean (result st) = out_mean st" "map s_stdev (result st) = out_stdev st"
    "map s_area (result st) = map (\<lambda>g. area g * (1 / 10000)) (out_geom st)"
    by simp_all
  have r: "run_class n f w sc (p, out) =
           Some (Inr (pos st, if 1 \<le> length (out_geom st) then out @ [(sc, result st)] else out))"
    using assms by (cases "out_geom st") (simp_all add: run_class_def export_def)
  have e: "(\<exists>rows. (sc, rows) \<in> set (export sc st [])) \<longleftrightarrow> 1 \<le> length (out_geom st)"
    by (cases "out_geom st") (simp_all add: export_def)
  from r e c show ?thesis by simp
qed

theorem export_iff_accepted_witness:
  "sample_loop 2 3 example_env (1, 2) (init_state 0) = Some (Inr (example_state 2)) \<and>
   run_class 2 3 example_env (1, 2) (0, []) =
     Some (Inr (6, [((1, 2),
       [\<lparr>s_mean = 7, s_stdev = 0, s_geometry = example_polygon, s_area = 1\<rparr>,
        \<lparr>s_mean = 7, s_stdev = 0, s_geometry = example_polygon, s_area = 1\<rparr>])])) \<and>
   sample_loop 2 3 no_aoi_env (1, 2) (init_state 0) =
     Some (Inr \<lparr>out_mean = [], out_stdev = [], out_geom = [], count = 6, pos = 15\<rparr>) \<and>
   run_class 2 3 no_aoi_env (1, 2) (0, []) = Some (Inr (15, []))"
  using export_iff_accepted[OF example_loop_target, of "[]"] export_iff_accepted[OF no_aoi_loop, of "[]"]
    example_loop_target no_aoi_loop
  by (simp add: example_result) (simp add: example_state_def)

text \<open>
  C9, as stated, fails: with a dataset of three points and an empty AOI the script raises
  nothing. Every size class runs to its budget and the run ends normally with no file
  written.
\<close>

theorem no_validation_counterexample:
  "aoi no_aoi_env = [] \<and> data no_aoi_env = example_data \<and>
   total_bounds (data no_aoi_env) = Some (0, 0, 100, 100) \<and>
   main no_aoi_env = Some (Inr (899982, []))"
proof -
  have "total_bounds example_data = Some (0, 0, 100, 100)"
    by (simp add: total_bounds_def example_data_def)
  with main_empty_aoi[OF no_aoi_variates] no_aoi_variates(1) show ?thesis
    by (simp add: no_aoi_env_def example_env_def)
qed

text \<open>
  C9, amended. Nothing is validated before the loop. For a dataset that is not empty and
  variates between 0 and 1: with an empty AOI the run ends normally, having written no
  file, after 49999 candidates for each of the six size classes; and for every size class
  of the settings every candidate is built, with its origin at \<^verbatim>\<open>int\<close> of the draws, also
  when its side exceeds the extent of the bounds on an axis: the draw then comes from the
  reversed interval, between \<open>bounds.max - side\<close> and \<open>bounds.min\<close>. (With an empty dataset
  the bounds are NaN and \<open>main\<close> ends by the OverflowError of line 80.)
\<close>

theorem run_without_validation:
  assumes "\<forall>i. 0 \<le> random_sample w i \<and> random_sample w i \<le> 1"
    and "data w \<noteq> []"
  shows "(aoi w = [] \<longrightarrow> main w = Some (Inr (899982, []))) \<and>
         (\<exists>b0 b1 b2 b3. total_bounds (data w) = Some (b0, b1, b2, b3) \<and>
            (\<forall>sc\<in>set sample_sizes. \<forall>q. \<exists>side dx dy.
               side = sqrt (uniform (fst sc) (snd sc) (random_sample w q) * 10000) \<and>
               dx = uniform b0 (b2 - side) (random_sample w (q + 1)) \<and>
               dy = uniform b1 (b3 - side) (random_sample w (q + 2)) \<and>
               candidate (w\<lparr>bounds := (b0, b1, b2, b3)\<rparr>) sc q =
                 Inr (candidate_polygon (py_int dx, py_int dy) side) \<and>
               (b2 - b0 < side \<longrightarrow> b2 - side \<le> dx \<and> dx \<le> b0) \<and>
               (b3 - b1 < side \<longrightarrow> b3 - side \<le> dy \<and> dy \<le> b1)))"
proof (intro conjI impI)
  assume "aoi w = []"
  then show "main w = Some (Inr (899982, []))"
    using assms by (rule main_empty_aoi)
next
  from assms(2) obtain b0 b1 b2 b3 where b: "total_bounds (data w) = Some (b0, b1, b2, b3)"
    by (auto simp: total_bounds_def)
  have "\<exists>side dx dy.
               side = sqrt (uniform (fst sc) (snd sc) (random_sample w q) * 10000) \<and>
               dx = uniform b0 (b2 - side) (random_sample w (q + 1)) \<and>
               dy = uniform b1 (b3 - side) (random_sample w (q + 2)) \<and>
               candidate (w\<lparr>bounds := (b0, b1, b2, b3)\<rparr>) sc q =
                 Inr (candidate_polygon (py_int dx, py_int dy) side) \<and>
               (b2 - b0 < side \<longrightarrow> b2 - side \<le> dx \<and> dx \<le> b0) \<and>
               (b3 - b1 < side \<longrightarrow> b3 - side \<le> dy \<and> dy \<le> b1)"
    if sc: "sc \<in> set sample_sizes" for sc q
  proof -
    define side where "side = sqrt (uniform (fst sc) (snd sc) (random_sample w q) * 10000)"
    define dx where "dx = uniform b0 (b2 - side) (random_sample w (q + 1))"
    define dy where "dy = uniform b1 (b3 - side) (random_sample w (q + 2))"
    from sc have "0 \<le> fst sc" "fst sc \<le> snd sc"
      by (auto simp: sample_sizes_def)
    from candidate_size_ok[OF this, of "random_sample w q"] assms(1)
    have s: "candidate_size sc (random_sample w q) = Inr side" by (simp add: side_def)
    then have c: "candidate (w\<lparr>bounds := (b0, b1, b2, b3)\<rparr>) sc q =
                 Inr (candidate_polygon (py_int dx, py_int dy) side)"
      by (simp add: candidate_def candidate_point_def dx_def dy_def)
    have x: "b2 - side \<le> dx \<and> dx \<le> b0" if "b2 - b0 < side"
      unfolding dx_def using that assms(1) by (intro uniform_reversed) simp_all
    have y: "b3 - side \<le> dy \<and> dy \<le> b1" if "b3 - b1 < side"
      unfolding dy_def using that assms(1) by (intro uniform_reversed) simp_all
    from side_def dx_def dy_def c x y show ?thesis by blast
  qed
  with b show "\<exists>b0 b1 b2 b3. total_bounds (data w) = Some (b0, b1, b2, b3) \<and>
            (\<forall>sc\<in>set sample_sizes. \<forall>q. \<exists>side dx dy.
               side = sqrt (uniform (fst sc) (snd sc) (random_sample w q) * 10000) \<and>
               dx = uniform b0 (b2 - side) (random_sample w (q + 1)) \<and>
               dy = uniform b1 (b3 - side) (random_sample w (q + 2)) \<and>
               candidate (w\<lparr>bounds := (b0, b1, b2, b3)\<rparr>) sc q =
                 Inr (candidate_polygon (py_int dx, py_int dy) side) \<and>
               (b2 - b0 < side \<longrightarrow> b2 - side \<le> dx \<and> dx \<le> b0) \<and>
               (b3 - b1 < side \<longrightarrow> b3 - side \<le> dy \<and> dy \<le> b1))"
    by blast
qed

theorem run_without_validation_witness:
  "(\<forall>i. 0 \<le> random_sample (negative_env\<lparr>aoi := []\<rparr>) i \<and> random_sample (negative_env\<lparr>aoi := []\<rparr>) i \<le> 1) \<and>
   data (negative_env\<lparr>aoi := []\<rparr>) \<noteq> [] \<and> aoi (negative_env\<lparr>aoi := []\<rparr>) = [] \<and>
   main (negative_env\<lparr>aoi := []\<rparr>) = Some (Inr (899982, [])) \<and>
   total_bounds (data (negative_env\<lparr>aoi := []\<rparr>)) = Some (- 10, - 10, 0, 0) \<and>
   (1, 2) \<in> set sample_sizes \<and> (0::real) - (- 10) < 100 \<and>
   candidate (negative_env\<lparr>aoi := [], bounds := (- 10, - 10, 0, 0)\<rparr>) (1, 2) 0 =
     Inr (candidate_polygon (- 32, - 32) 100) \<and>
   (0::real) - 100 \<le> uniform (- 10) (0 - 100) (1 / 4) \<and> uniform (- 10) (0 - 100) (1 / 4) \<le> (- 10::real)"
proof -
  let ?w = "negative_env\<lparr>aoi := []\<rparr>"
  have v: "\<forall>i. 0 \<le> random_sample ?w i \<and> random_sample ?w i \<le> 1"
    by (simp add: negative_env_def example_env_def)
  have d: "data ?w \<noteq> []" by (simp add: negative_env_def)
  have a: "aoi ?w = []" by simp
  have m: "((1::real), (2::real)) \<in> set sample_sizes" by (simp add: sample_sizes_def)
  have r0: "random_sample ?w 0 = 0" "random_sample ?w (0 + 1) = 1 / 4" "random_sample ?w (0 + 2) = 1 / 4"
    by (simp_all add: negative_env_def example_env_def)
  from run_without_validation[OF v d] a have mn: "main ?w = Some (Inr (899982, []))" by blast
  from run_without_validation[OF v d] obtain b0 b1 b2 b3 where
    b: "total_bounds (data ?w) = Some (b0, b1, b2, b3)" and
    c: "\<forall>sc\<in>set sample_sizes. \<forall>q. \<exists>side dx dy.
               side = sqrt (uniform (fst sc) (snd sc) (random_sample ?w q) * 10000) \<and>
               dx = uniform b0 (b2 - side) (random_sample ?w (q + 1)) \<and>
               dy = uniform b1 (b3 - side) (random_sample ?w (q + 2)) \<and>
               candidate (?w\<lparr>bounds := (b0, b1, b2, b3)\<rparr>) sc q =
                 Inr (candidate_polygon (py_int dx, py_int dy) side) \<and>
               (b2 - b0 < side \<longrightarrow> b2 - side \<le> dx \<and> dx \<le> b0) \<and>
               (b3 - b1 < side \<longrightarrow> b3 - side \<le> dy \<and> dy \<le> b1)"
    by blast
  from b negative_bounds have e: "b0 = - 10" "b1 = - 10" "b2 = 0" "b3 = 0" by simp_all
  have s: "sqrt (uniform (fst (1::real, 2::real)) (snd (1::real, 2::real)) 0 * 10000) = 100"
    by (simp add: uniform_def sqrt_10000)
  have u: "uniform (- 10) (- 100) (1 / 4) = - 65 / 2" by (simp add: uniform_def)
  have pi: "py_int (- (65 / 2)) = - 32" by (simp add: py_int_def)
  from c m have "\<exists>side dx dy.
               side = sqrt (uniform (fst (1::real, 2::real)) (snd (1::real, 2::real)) (random_sample ?w 0) * 10000) \<and>
               dx = uniform b0 (b2 - side) (random_sample ?w (0 + 1)) \<and>
               dy = uniform b1 (b3 - side) (random_sample ?w (0 + 2)) \<and>
               candidate (?w\<lparr>bounds := (b0, b1, b2, b3)\<rparr>) (1, 2) 0 =
                 Inr (candidate_polygon (py_int dx, py_int dy) side) \<and>
               (b2 - b0 < side \<longrightarrow> b2 - side \<le> dx \<and> dx \<le> b0) \<and>
               (b3 - b1 < side \<longrightarrow> b3 - side \<le> dy \<and> dy \<le> b1)"
    by blast
  then have k: "candidate (?w\<lparr>bounds := (- 10, - 10, 0, 0)\<rparr>) (1, 2) 0 =
                 Inr (candidate_polygon (- 32, - 32) 100)"
    and x: "(0::real) - 100 \<le> uniform (- 10) (0 - 100) (1 / 4) \<and> uniform (- 10) (0 - 100) (1 / 4) \<le> (- 10::real)"
    unfolding e r0 s by (simp_all add: u pi)
  from v d a mn negative_bounds m k x show ?thesis by simp
qed

text \<open>
  C10. With a target count that is not negative, the three result lists are equally long
  and hold at most \<open>n\<close> elements each time the loop is back at its test, after any number
  of passes, and when the loop is left, normally or by an exception. The exported records
  then pair the lists element by element: their columns are the three lists.
\<close>

theorem result_lists_agree:
  assumes "0 \<le> n"
  shows "(\<forall>k st. passes n f w sc k (init_state p) = Some st \<longrightarrow> lists_agree n st) \<and>
         (\<forall>r. sample_loop n f w sc (init_state p) = Some r \<longrightarrow>
            lists_agree n (final_state r) \<and>
            map s_mean (result (final_state r)) = out_mean (final_state r) \<and>
            map s_stdev (result (final_state r)) = out_stdev (final_state r) \<and>
            map s_geometry (result (final_state r)) = out_geom (final_state r))"
proof (intro conjI allI impI)
  fix k st
  assume "passes n f w sc k (init_state p) = Some st"
  then show "lists_agree n st"
    using assms by (auto intro: passes_lists_agree init_lists_agree)
next
  fix r
  assume "sample_loop n f w sc (init_state p) = Some r"
  from loop_Some_passes[OF this] obtain k st where
    k: "passes n f w sc k (init_state p) = Some st" and l: "leaves (sample_pass n f w sc st) = Some r"
    by blast
  have "lists_agree n st"
    using k assms by (auto intro: passes_lists_agree init_lists_agree)
  with l have a: "lists_agree n (final_state r)" by (rule leaves_lists_agree)
  then show "lists_agree n (final_state r)" .
  from result_columns[OF a]
  show "map s_mean (result (final_state r)) = out_mean (final_state r)"
    "map s_stdev (result (final_state r)) = out_stdev (final_state r)"
    "map s_geometry (result (final_state r)) = out_geom (final_state r)"
    by simp_all
qed

theorem result_lists_agree_witness:
  "(0::int) \<le> 2 \<and>
   passes 2 3 example_env (1, 2) 1 (init_state 0) = Some (example_state 1) \<and>
   lists_agree 2 (example_state 1) \<and>
   sample_loop 2 3 example_env (1, 2) (init_state 0) = Some (Inr (example_state 2)) \<and>
   lists_agree 2 (final_state (Inr (example_state 2))) \<and>
   map s_mean (result (final_state (Inr (example_state 2)))) = [7, 7] \<and>
   map s_stdev (result (final_state (Inr (example_state 2)))) = [0, 0] \<and>
   map s_geometry (result (final_state (Inr (example_state 2)))) = [example_polygon, example_polygon]"
proof -
  have p: "passes 2 3 example_env (1, 2) 1 (init_state 0) = Some (example_state 1)"
    by (rule example_passes_init) simp_all
  have o: "out_mean (example_state 2) = [7, 7]" "out_stdev (example_state 2) = [0, 0]"
    "out_geom (example_state 2) = [example_polygon, example_polygon]"
    by (simp_all add: example_state_def numeral_2_eq_2)
  from result_lists_agree[of 2 3 example_env "(1, 2)" 0] p example_loop_target o
  show ?thesis by (simp add: final_state_def del: passes.simps)
qed

end
